theory Spec2Isabelle
  imports Main "HOL-Library.Multiset" "HOL-Library.Word"
begin

section \<open>The TBB multi-threader of ITK (itkTBBMultiThreader.cxx)\<close>

text \<open>
  The file embeds \<^verbatim>\<open>src/Modules/Core/Common/src/itkTBBMultiThreader.cxx\<close>:
  the three entry points of \<^verbatim>\<open>TBBMultiThreader\<close> (\<^verbatim>\<open>SingleMethodExecute\<close>,
  \<^verbatim>\<open>ParallelizeArray\<close>, \<^verbatim>\<open>ParallelizeImageRegion\<close>) and the range type
  \<^verbatim>\<open>TBBImageRegionSplitter\<close> that the last one hands to the scheduler.

  Numbers are machine integers. \<^verbatim>\<open>SizeValueType\<close> and \<^verbatim>\<open>size_t\<close> are unsigned 64-bit words,
  on which \<open>+\<close>, \<open>-\<close> and \<open>*\<close> wrap around; \<^verbatim>\<open>IndexValueType\<close> is a signed 64-bit word,
  read with \<open>sint\<close>; \<^verbatim>\<open>ThreadIdType\<close> is \<^verbatim>\<open>unsigned int\<close>, a 32-bit word (the constructor
  compares it with \<^verbatim>\<open>1u\<close>). Dimension counts are list lengths.

  Exceptions are values: every operation returns \<open>error option\<close> (\<open>None\<close>: normal return,
  \<open>Some e\<close>: \<open>e\<close> was thrown) next to the state it leaves behind, or a sum \<open>error + result\<close>.
\<close>

type_synonym SizeValueType = "64 word"
type_synonym IndexValueType = "64 word"
type_synonym ThreadIdType = "32 word"

subsection \<open>Exceptions\<close>

datatype error =
    NoSingleMethodSet            \<comment> \<open>\<^verbatim>\<open>itkExceptionMacro(<< "No single method set!")\<close>\<close>
  | ProcessAborted string        \<comment> \<open>\<^verbatim>\<open>ProcessAborted\<close> with its description\<close>
  | CouldNotBeSplit "(IndexValueType \<times> SizeValueType) list"
      \<comment> \<open>\<^verbatim>\<open>itkGenericExceptionMacro("An ImageIORegion could not be split. Region: " << region)\<close>\<close>
  | DivisionByZero               \<comment> \<open>integer division by zero (undefined behaviour in C++)\<close>
  | OutOfBoundsRead              \<comment> \<open>a read past the end of a caller's array (undefined behaviour)\<close>
  | BadFunctionCall              \<comment> \<open>call of an empty \<^verbatim>\<open>std::function\<close>\<close>
  | UserException string         \<comment> \<open>anything a work function throws itself\<close>

subsection \<open>ImageIORegion\<close>

text \<open>
  Modelled from the spec: \<^verbatim>\<open>itk::ImageIORegion\<close> is declared in itkImageIORegion.h, which is
  not among the sources. The specification's Region has a dimension, an index sequence and a size
  sequence with the invariant that both sequences have the dimension as their length, and
  \<open>NumberOfElements = product(size[d])\<close>. The model keeps the invariant by construction: a region
  is the list of its per-dimension extents \<open>(index[d], size[d])\<close>.
\<close>

type_synonym ImageIORegion = "(IndexValueType \<times> SizeValueType) list"

definition ImageIORegion :: "nat \<Rightarrow> ImageIORegion" where
  "ImageIORegion dimension = replicate dimension (0, 0)"

definition GetImageDimension :: "ImageIORegion \<Rightarrow> nat" where
  "GetImageDimension r = length r"

definition GetIndex :: "ImageIORegion \<Rightarrow> nat \<Rightarrow> IndexValueType" where
  "GetIndex r d = fst (r ! d)"

definition GetSize :: "ImageIORegion \<Rightarrow> nat \<Rightarrow> SizeValueType" where
  "GetSize r d = snd (r ! d)"

definition SetIndex :: "ImageIORegion \<Rightarrow> nat \<Rightarrow> IndexValueType \<Rightarrow> ImageIORegion" where
  "SetIndex r d v = r[d := (v, snd (r ! d))]"

definition SetSize :: "ImageIORegion \<Rightarrow> nat \<Rightarrow> SizeValueType \<Rightarrow> ImageIORegion" where
  "SetSize r d v = r[d := (fst (r ! d), v)]"

definition GetIndexVector :: "ImageIORegion \<Rightarrow> IndexValueType list" where
  \<comment> \<open>\<^verbatim>\<open>GetIndex()\<close> without argument: the whole index vector\<close>
  "GetIndexVector r = map fst r"

definition GetSizeVector :: "ImageIORegion \<Rightarrow> SizeValueType list" where
  \<comment> \<open>\<^verbatim>\<open>GetSize()\<close> without argument: the whole size vector\<close>
  "GetSizeVector r = map snd r"

definition GetNumberOfPixels :: "ImageIORegion \<Rightarrow> SizeValueType" where
  \<comment> \<open>the product of the sizes, in \<^verbatim>\<open>SizeValueType\<close>\<close>
  "GetNumberOfPixels r = prod_list (map snd r)"





subsection \<open>TBBImageRegionSplitter\<close>

text \<open>\<^verbatim>\<open>struct TBBImageRegionSplitter : public itk::ImageIORegion\<close> adds no field.\<close>

type_synonym TBBImageRegionSplitter = ImageIORegion

text \<open>\<^verbatim>\<open>tbb::proportional_split\<close> with its accessors \<^verbatim>\<open>left()\<close> and \<^verbatim>\<open>right()\<close>, both
  \<^verbatim>\<open>size_t\<close>.\<close>

record proportional_split =
  left :: "64 word"
  right :: "64 word"

text \<open>
  The splitting constructor
  \<^verbatim>\<open>TBBImageRegionSplitter(TBBImageRegionSplitter& region, tbb::proportional_split p)\<close>
  creates a new splitter and changes its argument. It returns both: \<open>new_splitter\<close> is the object
  under construction (\<^verbatim>\<open>*this\<close>, which starts as a copy of \<open>region\<close>), \<open>old_splitter\<close> is the
  argument \<open>region\<close>, which existed before, as the constructor leaves it.
  The loop \<^verbatim>\<open>for (d = dimension - 1; d >= 0; d--)\<close> is \<open>split_scan\<close>, whose first argument
  is \<open>d + 1\<close>. All arithmetic is in 64-bit words: the product \<^verbatim>\<open>GetSize(d) * p.right()\<close>, the sum
  \<^verbatim>\<open>p.left() + p.right()\<close> and the new index \<^verbatim>\<open>myP + region.GetIndex(d)\<close> wrap around. A sum
  \<^verbatim>\<open>p.left() + p.right()\<close> of zero makes the division undefined in C++.
\<close>

record split_result =
  new_splitter :: TBBImageRegionSplitter
  old_splitter :: TBBImageRegionSplitter

fun split_scan :: "nat \<Rightarrow> TBBImageRegionSplitter \<Rightarrow> proportional_split \<Rightarrow> error + split_result" where
  "split_scan 0 region p = Inl (CouldNotBeSplit region)"
| "split_scan (Suc d) region p =
     (if GetSize region d > 1 then
        (if left p + right p = 0 then Inl DivisionByZero
         else
           let myP = (GetSize region d * right p) div (left p + right p);
               myP = (if myP = 0 then myP + 1
                      else if myP = GetSize region d then myP - 1
                      else myP)
           in Inr \<lparr>new_splitter = SetSize region d myP,
                   old_splitter = SetIndex (SetSize region d (GetSize region d - myP)) d
                     (myP + GetIndex region d)\<rparr>)
      else split_scan d region p)"

definition proportional_split_ctor :: "TBBImageRegionSplitter \<Rightarrow> proportional_split
    \<Rightarrow> error + split_result" where
  "proportional_split_ctor region p = split_scan (GetImageDimension region) region p"

definition split_ctor :: "TBBImageRegionSplitter \<Rightarrow> error + split_result" where
  \<comment> \<open>\<^verbatim>\<open>TBBImageRegionSplitter(region, tbb::split)\<close> delegates to the proportional split\<close>
  "split_ctor region = proportional_split_ctor region \<lparr>left = 1, right = 1\<rparr>"

text \<open>The value of \<^verbatim>\<open>myP\<close> when the sizes are set (source lines 169 to 177), for a dimension of
  size \<open>s\<close>.\<close>

definition computed_cut :: "SizeValueType \<Rightarrow> proportional_split \<Rightarrow> SizeValueType" where
  "computed_cut s p =
     (let myP = (s * right p) div (left p + right p)
      in if myP = 0 then myP + 1 else if myP = s then myP - 1 else myP)"

text \<open>Modelled from the spec: the cut in the words of the specification, in exact arithmetic,
  \<open>floor(size * right / (left + right))\<close> clamped to the interval \<open>[1, size - 1]\<close>.\<close>

definition clamped_cut :: "nat \<Rightarrow> nat \<Rightarrow> nat \<Rightarrow> nat" where
  "clamped_cut s l r = max 1 (min (s - 1) ((s * r) div (l + r)))"

text \<open>The loops of \<^verbatim>\<open>empty()\<close> and \<^verbatim>\<open>is_divisible()\<close>, from dimension \<open>d\<close> upwards.\<close>

function empty_loop :: "TBBImageRegionSplitter \<Rightarrow> nat \<Rightarrow> bool" where
  "empty_loop r d =
     (if d < GetImageDimension r
      then (if GetSize r d = 0 then True else empty_loop r (d + 1))
      else False)"
  by pat_completeness auto
termination
  by (relation "measure (\<lambda>(r, d). GetImageDimension r - d)") auto

definition empty_region :: "TBBImageRegionSplitter \<Rightarrow> bool" where
  \<comment> \<open>the member function \<^verbatim>\<open>empty()\<close>\<close>
  "empty_region r = empty_loop r 0"

function is_divisible_loop :: "TBBImageRegionSplitter \<Rightarrow> nat \<Rightarrow> bool" where
  "is_divisible_loop r d =
     (if d < GetImageDimension r
      then (if GetSize r d > 1 then True else is_divisible_loop r (d + 1))
      else False)"
  by pat_completeness auto
termination
  by (relation "measure (\<lambda>(r, d). GetImageDimension r - d)") auto

definition is_divisible :: "TBBImageRegionSplitter \<Rightarrow> bool" where
  "is_divisible r = is_divisible_loop r 0"

subsection \<open>The scheduler (Threading Building Blocks)\<close>

text \<open>
  Modelled from the spec: \<^verbatim>\<open>tbb::parallel_for\<close>, \<^verbatim>\<open>tbb::blocked_range\<close> and the partitioners
  belong to the external scheduler. The specification describes it as a split-based parallel-for
  over a range object with \<open>IsDivisible\<close>, \<open>IsEmpty\<close> and a split operation: an empty range is
  never scheduled; the simple partitioner subdivides down to indivisible units; the auto partitioner
  chooses where to stop, and its simple splitting always requests the ratio \<open>(1, 1)\<close>; a failure
  in a leaf task ends the parallel-for and is raised to the caller.
  \<^verbatim>\<open>ParallelizeImageRegion\<close> passes no partitioner (source line 269), which selects the auto
  partitioner; it subdivides a range with the plain splitting constructor
  \<^verbatim>\<open>TBBImageRegionSplitter(region, tbb::split)\<close>, which the source delegates to the
  proportional one with ratio \<open>(1, 1)\<close> (source line 159). Other ratios reach the proportional
  constructor only when it is called directly.

  What the scheduler is free to decide is a parameter of the model:
  \<^item> \<open>order\<close>: the order in which the leaf tasks run (one worker runs them as they are listed;
    work stealing permutes them);
  \<^item> \<open>on_calling_thread\<close>: whether a leaf task runs on the thread that made the call;
  \<^item> \<open>auto_partition\<close>: for the auto partitioner, whether a divisible range is split further
    (\<open>False\<close>: it is run as one task).
  Leaf tasks run one after the other; interleavings inside a task are not modelled.
\<close>

record 'r scheduler =
  order :: "'r list \<Rightarrow> 'r list"
  on_calling_thread :: "'r \<Rightarrow> bool"
  auto_partition :: "'r \<Rightarrow> bool"

text \<open>\<^verbatim>\<open>tbb::blocked_range<Value>(begin, end, 1)\<close>: both call sites pass grain size 1, which the
  model fixes. Splitting cuts at \<open>begin + (end - begin) / 2\<close>. A range that is not empty has
  \<open>begin < end\<close>, so that nothing computed on it wraps around; the bounds are kept as the natural
  numbers they denote, and the callers convert.\<close>

record blocked_range =
  my_begin :: nat
  my_end :: nat

definition br_size :: "blocked_range \<Rightarrow> nat" where
  "br_size r = my_end r - my_begin r"

definition br_empty :: "blocked_range \<Rightarrow> bool" where
  "br_empty r = (\<not> my_begin r < my_end r)"

definition br_is_divisible :: "blocked_range \<Rightarrow> bool" where
  "br_is_divisible r = (1 < br_size r)"

definition br_split :: "blocked_range \<Rightarrow> blocked_range \<times> blocked_range" where
  "br_split r =
     (let middle = my_begin r + (my_end r - my_begin r) div 2
      in (r\<lparr>my_end := middle\<rparr>, r\<lparr>my_begin := middle\<rparr>))"

text \<open>The leaves of the simple partitioner: split while divisible.\<close>

function simple_leaves :: "blocked_range \<Rightarrow> blocked_range list" where
  "simple_leaves r =
     (if br_is_divisible r
      then simple_leaves (fst (br_split r)) @ simple_leaves (snd (br_split r))
      else [r])"
  by pat_completeness auto
termination
  by (relation "measure br_size")
     (auto simp: br_is_divisible_def br_size_def br_split_def Let_def)

text \<open>The chunks of the auto partitioner over a region: a divisible region is split, with the
  plain splitting constructor, when the partitioner asks for it.\<close>

definition region_weight :: "TBBImageRegionSplitter \<Rightarrow> nat" where
  "region_weight r = sum_list (map (\<lambda>e. unat (snd e)) r)"

function region_chunks :: "(TBBImageRegionSplitter \<Rightarrow> bool)
    \<Rightarrow> TBBImageRegionSplitter \<Rightarrow> error + TBBImageRegionSplitter list" where
  "region_chunks part r =
     (if is_divisible r \<and> part r then
        (case split_ctor r of
           Inl e \<Rightarrow> Inl e
         | Inr halves \<Rightarrow>
             (case region_chunks part (new_splitter halves) of
                Inl e \<Rightarrow> Inl e
              | Inr xs \<Rightarrow>
                  (case region_chunks part (old_splitter halves) of
                     Inl e \<Rightarrow> Inl e
                   | Inr ys \<Rightarrow> Inr (xs @ ys))))
      else Inr [r])"
  by pat_completeness auto

subsection \<open>The world the threader runs in\<close>

text \<open>
  A call runs in a world with two parts: \<open>calls\<close>, the arguments of the work-function
  invocations made so far, in order (the model's record of what was invoked), and \<open>outer\<close>,
  everything outside the threader (the data the work function and the filter act on). A work
  function acts on \<open>outer\<close> only and may throw. \<^verbatim>\<open>ArrayThreadingFunctorType\<close> and
  \<^verbatim>\<open>ThreadingFunctorType\<close> are \<^verbatim>\<open>std::function\<close> objects, which may be empty (\<open>None\<close>);
  \<open>invoke\<close> is their call operator.
\<close>

record ('c, 's) world =
  calls :: "'c list"
  outer :: 's

type_synonym ('c, 's) functor_type = "('c \<Rightarrow> 's \<Rightarrow> error option \<times> 's) option"

fun invoke :: "('c, 's) functor_type \<Rightarrow> 'c \<Rightarrow> ('c, 's) world \<Rightarrow> error option \<times> ('c, 's) world" where
  "invoke None a w = (Some BadFunctionCall, w)"
| "invoke (Some f) a w =
     (fst (f a (outer w)), w\<lparr>calls := calls w @ [a], outer := snd (f a (outer w))\<rparr>)"

definition fresh :: "'s \<Rightarrow> ('c, 's) world" where
  "fresh s = \<lparr>calls = [], outer = s\<rparr>"

text \<open>Leaf tasks run in the listed order; the first exception ends the parallel-for.\<close>

fun run_tasks :: "('r \<Rightarrow> 'w \<Rightarrow> error option \<times> 'w) \<Rightarrow> 'r list \<Rightarrow> 'w \<Rightarrow> error option \<times> 'w" where
  "run_tasks body [] w = (None, w)"
| "run_tasks body (r # rs) w =
     (case body r w of
        (Some e, w') \<Rightarrow> (Some e, w')
      | (None, w') \<Rightarrow> run_tasks body rs w')"

definition parallel_for_simple :: "blocked_range scheduler \<Rightarrow> blocked_range
    \<Rightarrow> (blocked_range \<Rightarrow> 'w \<Rightarrow> error option \<times> 'w) \<Rightarrow> 'w \<Rightarrow> error option \<times> 'w" where
  \<comment> \<open>\<^verbatim>\<open>tbb::parallel_for(range, body, tbb::simple_partitioner())\<close>\<close>
  "parallel_for_simple sch rng body w =
     (if br_empty rng then (None, w)
      else run_tasks body (order sch (simple_leaves rng)) w)"

definition parallel_for_auto :: "TBBImageRegionSplitter scheduler \<Rightarrow> TBBImageRegionSplitter
    \<Rightarrow> (TBBImageRegionSplitter \<Rightarrow> 'w \<Rightarrow> error option \<times> 'w) \<Rightarrow> 'w \<Rightarrow> error option \<times> 'w" where
  \<comment> \<open>\<^verbatim>\<open>tbb::parallel_for(range, body)\<close> with the default \<^verbatim>\<open>auto_partitioner\<close>\<close>
  "parallel_for_auto sch rng body w =
     (if empty_region rng then (None, w)
      else (case region_chunks (auto_partition sch) rng of
              Inl e \<Rightarrow> (Some e, w)
            | Inr ts \<Rightarrow> run_tasks body (order sch ts) w))"

subsection \<open>ProcessObject: progress sink and abort source\<close>

text \<open>
  The filter is used through three members only. \<^verbatim>\<open>UpdateProgress(float)\<close> receives
  \<open>Fraction a b\<close> for the float \<open>a / b\<close> (\<open>0.0f\<close> is \<open>Fraction 0 1\<close>, \<open>1.0f\<close> is
  \<open>Fraction 1 1\<close>); the quotient itself is not computed. A null filter pointer is \<open>None\<close>.
\<close>

datatype progress_value = Fraction nat nat

record 's ProcessObject =
  UpdateProgress :: "progress_value \<Rightarrow> 's \<Rightarrow> 's"
  GetAbortGenerateData :: "'s \<Rightarrow> bool"
  GetNameOfClass :: string

definition aborted :: "'s ProcessObject \<Rightarrow> error" where
  "aborted filter' = ProcessAborted (''AbortGenerateData was called in '' @ GetNameOfClass filter'
      @ '' during multi-threaded part of filter execution'')"

definition report :: "'s ProcessObject option \<Rightarrow> progress_value \<Rightarrow> ('c, 's) world \<Rightarrow> ('c, 's) world" where
  \<comment> \<open>\<^verbatim>\<open>if (filter) filter->UpdateProgress(v)\<close>\<close>
  "report filter' v w =
     (case filter' of None \<Rightarrow> w | Some f \<Rightarrow> w\<lparr>outer := UpdateProgress f v (outer w)\<rparr>)"

definition finish :: "'s ProcessObject option \<Rightarrow> ('c, 's) world \<Rightarrow> error option \<times> ('c, 's) world" where
  \<comment> \<open>the closing \<^verbatim>\<open>if (filter)\<close> block of both Parallelize functions\<close>
  "finish filter' w =
     (case filter' of
        None \<Rightarrow> (None, w)
      | Some f \<Rightarrow>
          (let w' = w\<lparr>outer := UpdateProgress f (Fraction 1 1) (outer w)\<rparr>
           in if GetAbortGenerateData f (outer w') then (Some (aborted f), w') else (None, w')))"

subsection \<open>TBBMultiThreader\<close>

text \<open>\<^verbatim>\<open>ThreadInfoStruct\<close> is what the single method receives; \<^verbatim>\<open>void *\<close> user data is
  \<open>'d option\<close> with \<open>None\<close> for the null pointer. The single method is a function pointer,
  \<open>None\<close> when null.\<close>

record 'd ThreadInfoStruct =
  ThreadID :: ThreadIdType
  UserData :: "'d option"
  NumberOfThreads :: ThreadIdType

record ('d, 's) TBBMultiThreader =
  m_SingleMethod :: "('d ThreadInfoStruct, 's) functor_type"
  m_SingleData :: "'d option"
  m_NumberOfThreads :: ThreadIdType

definition TBBMultiThreader :: "ThreadIdType \<Rightarrow> ('d, 's) TBBMultiThreader" where
  \<comment> \<open>the constructor; the argument is the value of \<^verbatim>\<open>GetGlobalDefaultNumberOfThreads()\<close>\<close>
  "TBBMultiThreader globalDefaultNumberOfThreads =
     \<lparr>m_SingleMethod = None, m_SingleData = None,
      m_NumberOfThreads = max 1 globalDefaultNumberOfThreads\<rparr>"


definition single_method_body :: "('d, 's) TBBMultiThreader \<Rightarrow> blocked_range
    \<Rightarrow> ('d ThreadInfoStruct, 's) world \<Rightarrow> error option \<times> ('d ThreadInfoStruct, 's) world" where
  \<comment> \<open>the lambda of \<^verbatim>\<open>SingleMethodExecute\<close>; its assertion \<^verbatim>\<open>r.begin() + 1 == r.end()\<close>
      is ignored in release builds\<close>
  "single_method_body t r w =
     (let ti = \<lparr>ThreadID = of_nat (my_begin r), UserData = m_SingleData t,
                NumberOfThreads = m_NumberOfThreads t\<rparr>
      in invoke (m_SingleMethod t) ti w)"

text \<open>\<^verbatim>\<open>tbb::blocked_range<int>(0, m_NumberOfThreads, 1)\<close> converts the unsigned thread count to
  \<^verbatim>\<open>int\<close>: a count of \<open>2^31\<close> or more becomes negative and the range is empty.\<close>

definition SingleMethodExecute :: "blocked_range scheduler \<Rightarrow> ('d, 's) TBBMultiThreader
    \<Rightarrow> ('d ThreadInfoStruct, 's) world \<Rightarrow> error option \<times> ('d ThreadInfoStruct, 's) world" where
  "SingleMethodExecute sch t w =
     (if m_SingleMethod t = None then (Some NoSingleMethodSet, w)
      else parallel_for_simple sch \<lparr>my_begin = 0, my_end = nat (sint (m_NumberOfThreads t))\<rparr>
             (single_method_body t) w)"

text \<open>The lambda of \<^verbatim>\<open>ParallelizeArray\<close>. The tasks share the local
  \<^verbatim>\<open>std::atomic<SizeValueType> progress\<close>, which is the first component of their state;
  \<open>count'\<close> is the local \<^verbatim>\<open>unsigned count\<close>. The assertion \<^verbatim>\<open>r.begin() + 1 == r.end()\<close> is
  ignored in release builds.\<close>

definition array_body :: "blocked_range scheduler \<Rightarrow> 32 word \<Rightarrow> (SizeValueType, 's) functor_type
    \<Rightarrow> 's ProcessObject option \<Rightarrow> blocked_range \<Rightarrow> SizeValueType \<times> (SizeValueType, 's) world
    \<Rightarrow> error option \<times> (SizeValueType \<times> (SizeValueType, 's) world)" where
  "array_body sch count' aFunc filter' r st =
     (let progress = fst st; w = snd st
      in case filter' of
           None \<Rightarrow>
             (let res = invoke aFunc (of_nat (my_begin r)) w in (fst res, (progress, snd res)))
         | Some f \<Rightarrow>
             if GetAbortGenerateData f (outer w) then (Some (aborted f), (progress, w))
             else
               (case invoke aFunc (of_nat (my_begin r)) w of
                  (Some e, w') \<Rightarrow> (Some e, (progress, w'))
                | (None, w') \<Rightarrow>
                    (let progress' = progress + 1
                     in if on_calling_thread sch r
                        then (None, (progress', w'\<lparr>outer :=
                                UpdateProgress f (Fraction (unat progress') (unat count')) (outer w')\<rparr>))
                        else (None, (progress', w')))))"

definition ParallelizeArray :: "blocked_range scheduler \<Rightarrow> SizeValueType \<Rightarrow> SizeValueType
    \<Rightarrow> (SizeValueType, 's) functor_type \<Rightarrow> 's ProcessObject option \<Rightarrow> (SizeValueType, 's) world
    \<Rightarrow> error option \<times> (SizeValueType, 's) world" where
  "ParallelizeArray sch firstIndex lastIndexPlus1 aFunc filter' w0 =
     (let w = report filter' (Fraction 0 1) w0;
          res =
            (if firstIndex + 1 < lastIndexPlus1 then
               (let count' = ucast (lastIndexPlus1 - firstIndex);
                    progress = 0;
                    done = parallel_for_simple sch
                      \<lparr>my_begin = unat firstIndex, my_end = unat lastIndexPlus1\<rparr>
                      (array_body sch count' aFunc filter') (progress, w)
                in (fst done, snd (snd done)))
             else if firstIndex + 1 = lastIndexPlus1 then invoke aFunc firstIndex w
             else (None, w))
      in case res of
           (Some e, w') \<Rightarrow> (Some e, w')
         | (None, w') \<Rightarrow> finish filter' w')"

text \<open>The loop of \<^verbatim>\<open>ParallelizeImageRegion\<close> that copies the caller's arrays into the region,
  from dimension \<open>d\<close> upwards.\<close>

function fill_loop :: "nat \<Rightarrow> IndexValueType list \<Rightarrow> SizeValueType list \<Rightarrow> ImageIORegion \<Rightarrow> nat
    \<Rightarrow> ImageIORegion" where
  "fill_loop dimension index' size' region d =
     (if d < dimension
      then fill_loop dimension index' size'
             (SetSize (SetIndex region d (index' ! d)) d (size' ! d)) (d + 1)
      else region)"
  by pat_completeness auto
termination
  by (relation "measure (\<lambda>(dimension, index', size', region, d). dimension - d)") auto

text \<open>The lambda of \<^verbatim>\<open>ParallelizeImageRegion\<close>. The first component of the tasks' state is the
  local \<^verbatim>\<open>std::atomic<SizeValueType> pixelProgress\<close>.\<close>

definition region_body :: "TBBImageRegionSplitter scheduler \<Rightarrow> SizeValueType
    \<Rightarrow> (IndexValueType list \<times> SizeValueType list, 's) functor_type \<Rightarrow> 's ProcessObject option
    \<Rightarrow> TBBImageRegionSplitter
    \<Rightarrow> SizeValueType \<times> (IndexValueType list \<times> SizeValueType list, 's) world
    \<Rightarrow> error option \<times> (SizeValueType \<times> (IndexValueType list \<times> SizeValueType list, 's) world)" where
  "region_body sch totalCount funcP filter' regionToProcess st =
     (let pixelProgress = fst st; w = snd st
      in case filter' of
           None \<Rightarrow>
             (let res = invoke funcP (GetIndexVector regionToProcess, GetSizeVector regionToProcess) w
              in (fst res, (pixelProgress, snd res)))
         | Some f \<Rightarrow>
             if GetAbortGenerateData f (outer w) then (Some (aborted f), (pixelProgress, w))
             else
               (case invoke funcP (GetIndexVector regionToProcess, GetSizeVector regionToProcess) w of
                  (Some e, w') \<Rightarrow> (Some e, (pixelProgress, w'))
                | (None, w') \<Rightarrow>
                    (let pixelCount = GetNumberOfPixels regionToProcess;
                         pixelProgress' = pixelProgress + pixelCount
                     in if on_calling_thread sch regionToProcess
                        then (None, (pixelProgress', w'\<lparr>outer :=
                                UpdateProgress f (Fraction (unat pixelProgress') (unat totalCount))
                                  (outer w')\<rparr>))
                        else (None, (pixelProgress', w')))))"

text \<open>The arrays \<^verbatim>\<open>index[]\<close> and \<^verbatim>\<open>size[]\<close> are lists; the multi-threaded branch reads their
  first \<open>dimension\<close> entries, which is undefined behaviour when an array is shorter.\<close>

definition ParallelizeImageRegion :: "('d, 's) TBBMultiThreader \<Rightarrow> TBBImageRegionSplitter scheduler
    \<Rightarrow> nat \<Rightarrow> IndexValueType list \<Rightarrow> SizeValueType list
    \<Rightarrow> (IndexValueType list \<times> SizeValueType list, 's) functor_type
    \<Rightarrow> 's ProcessObject option \<Rightarrow> (IndexValueType list \<times> SizeValueType list, 's) world
    \<Rightarrow> error option \<times> (IndexValueType list \<times> SizeValueType list, 's) world" where
  "ParallelizeImageRegion t sch dimension index' size' funcP filter' w0 =
     (let w = report filter' (Fraction 0 1) w0;
          res =
            (if m_NumberOfThreads t = 1 then invoke funcP (index', size') w
             else if length index' < dimension \<or> length size' < dimension
             then (Some OutOfBoundsRead, w)
             else
               (let region = fill_loop dimension index' size' (ImageIORegion dimension) 0;
                    regionSplitter = region;
                    pixelProgress = 0;
                    totalCount = GetNumberOfPixels region;
                    done = parallel_for_auto sch regionSplitter
                      (region_body sch totalCount funcP filter') (pixelProgress, w)
                in (fst done, snd (snd done))))
      in case res of
           (Some e, w') \<Rightarrow> (Some e, w')
         | (None, w') \<Rightarrow> finish filter' w')"

text \<open>A schedule with one worker: leaves run in the order of the decomposition, all of them on the
  calling thread, and the auto partitioner splits every divisible range.\<close>

definition one_worker :: "'r scheduler" where
  "one_worker = \<lparr>order = (\<lambda>ts. ts), on_calling_thread = (\<lambda>r. True),
     auto_partition = (\<lambda>r. True)\<rparr>"

text \<open>A schedule in which the leaves run in reverse order, none of them on the calling thread,
  and the auto partitioner splits every divisible range.\<close>

definition stolen :: "'r scheduler" where
  "stolen = \<lparr>order = rev, on_calling_thread = (\<lambda>r. False),
     auto_partition = (\<lambda>r. True)\<rparr>"

subsection \<open>Sample work functions and filters\<close>

text \<open>A work function that counts its invocations in the outer state and never throws, a work
  function that throws at once, and further down a filter whose abort flag is set and stays set and
  a filter that is never aborted.\<close>

definition count_work :: "'c \<Rightarrow> nat \<Rightarrow> error option \<times> nat" where
  "count_work a s = (None, Suc s)"

definition throwing_work :: "'c \<Rightarrow> nat \<Rightarrow> error option \<times> nat" where
  "throwing_work a s = (Some (UserException ''failed''), s)"


definition abort_requested :: "nat ProcessObject" where
  "abort_requested = \<lparr>UpdateProgress = (\<lambda>v s. s), GetAbortGenerateData = (\<lambda>s. True),
     GetNameOfClass = ''Filter''\<rparr>"

definition never_aborted :: "nat ProcessObject" where
  "never_aborted = \<lparr>UpdateProgress = (\<lambda>v s. s), GetAbortGenerateData = (\<lambda>s. False),
     GetNameOfClass = ''Filter''\<rparr>"

section \<open>Properties\<close>

subsection \<open>The splitting constructor, step by step\<close>

lemma split_scan_skip:
  "\<not> 1 < GetSize region d \<Longrightarrow> split_scan (Suc d) region p = split_scan d region p"
  by simp

lemma split_scan_zero_sum:
  "1 < GetSize region d \<Longrightarrow> left p + right p = 0 \<Longrightarrow> split_scan (Suc d) region p = Inl DivisionByZero"
  by simp

lemma split_scan_here:
  assumes "1 < GetSize region d" and "left p + right p \<noteq> 0"
  shows "split_scan (Suc d) region p =
    Inr \<lparr>new_splitter = SetSize region d (computed_cut (GetSize region d) p),
         old_splitter = SetIndex (SetSize region d (GetSize region d - computed_cut (GetSize region d) p)) d
           (computed_cut (GetSize region d) p + GetIndex region d)\<rparr>"
  using assms by (simp add: computed_cut_def Let_def)

declare split_scan.simps(2) [simp del]

lemma split_scan_Inr:
  assumes "split_scan n region p = Inr res" and "n \<le> length region"
  shows "\<exists>d<n. 1 < GetSize region d \<and> left p + right p \<noteq> 0
      \<and> new_splitter res = region[d := (fst (region ! d), computed_cut (GetSize region d) p)]
      \<and> old_splitter res = region[d := (computed_cut (GetSize region d) p + fst (region ! d),
            GetSize region d - computed_cut (GetSize region d) p)]"
  using assms
proof (induction n)
  case 0
  then show ?case by simp
next
  case (Suc n)
  show ?case
  proof (cases "1 < GetSize region n")
    case False
    with Suc.prems have "split_scan n region p = Inr res" and "n \<le> length region"
      by (simp_all add: split_scan_skip)
    with Suc.IH obtain d where "d < n" and rest: "1 < GetSize region d" "left p + right p \<noteq> 0"
        "new_splitter res = region[d := (fst (region ! d), computed_cut (GetSize region d) p)]"
        "old_splitter res = region[d := (computed_cut (GetSize region d) p + fst (region ! d),
            GetSize region d - computed_cut (GetSize region d) p)]"
      by blast
    from \<open>d < n\<close> have "d < Suc n" by simp
    with rest show ?thesis by blast
  next
    case True
    from True Suc.prems(1) have nz: "left p + right p \<noteq> 0"
      by (auto simp: split_scan_zero_sum)
    from Suc.prems(1) have "res = \<lparr>new_splitter = SetSize region n (computed_cut (GetSize region n) p),
         old_splitter = SetIndex (SetSize region n (GetSize region n - computed_cut (GetSize region n) p)) n
           (computed_cut (GetSize region n) p + GetIndex region n)\<rparr>"
      unfolding split_scan_here [OF True nz] by simp
    with Suc.prems(2) have
      "new_splitter res = region[n := (fst (region ! n), computed_cut (GetSize region n) p)]"
      "old_splitter res = region[n := (computed_cut (GetSize region n) p + fst (region ! n),
            GetSize region n - computed_cut (GetSize region n) p)]"
      by (simp_all add: SetSize_def SetIndex_def GetIndex_def)
    with True nz show ?thesis by blast
  qed
qed

lemma computed_cut_proper:
  assumes "1 < s"
  shows "computed_cut s p \<noteq> 0" and "computed_cut s p \<noteq> s"
proof -
  from assms have "s \<noteq> 1" and "s \<noteq> 0" and "(1::64 word) \<noteq> s" by auto
  then show "computed_cut s p \<noteq> 0" and "computed_cut s p \<noteq> s"
    by (auto simp: computed_cut_def Let_def)
qed

lemma computed_cut_plain:
  assumes "1 < s"
  shows "computed_cut s \<lparr>left = 1, right = 1\<rparr> = s div 2"
    and "unat (s div 2) = unat s div 2" and "0 < unat s div 2" and "unat s div 2 < unat s"
proof -
  from assms have s: "1 < unat s" by (simp add: word_less_nat_alt)
  show u: "unat (s div 2) = unat s div 2" by (simp add: unat_div)
  from s show pos: "0 < unat s div 2" and less: "unat s div 2 < unat s" by simp_all
  from pos u have "s div 2 \<noteq> 0" by (metis unat_0 less_nat_zero_code)
  moreover from less u have "s div 2 \<noteq> s" by (metis less_irrefl)
  ultimately show "computed_cut s \<lparr>left = 1, right = 1\<rparr> = s div 2"
    by (simp add: computed_cut_def Let_def)
qed

subsection \<open>Termination of the auto partitioner\<close>

text \<open>Each half of a plain split weighs less than the region it was split from.\<close>

lemma region_weight_update:
  assumes "d < length r"
  shows "region_weight (r[d := (i, c)]) + unat (GetSize r d) = region_weight r + unat c"
proof -
  let ?sizes = "map (\<lambda>e. unat (snd e)) r"
  from assms have "?sizes ! d \<le> sum_list ?sizes"
    by (intro elem_le_sum_list) simp
  with assms have "unat (snd (r ! d)) \<le> sum_list ?sizes" by simp
  with assms show ?thesis
    by (simp add: region_weight_def GetSize_def map_update sum_list_update)
qed

lemma split_ctor_halves:
  assumes "split_ctor r = Inr halves"
  obtains d where "d < length r" and "1 < GetSize r d"
    and "new_splitter halves = r[d := (fst (r ! d), GetSize r d div 2)]"
    and "old_splitter halves = r[d := (GetSize r d div 2 + fst (r ! d), GetSize r d - GetSize r d div 2)]"
proof -
  from assms have "split_scan (length r) r \<lparr>left = 1, right = 1\<rparr> = Inr halves"
    by (simp add: split_ctor_def proportional_split_ctor_def GetImageDimension_def)
  from split_scan_Inr [OF this] obtain d where d: "d < length r" "1 < GetSize r d"
    and "new_splitter halves = r[d := (fst (r ! d), computed_cut (GetSize r d) \<lparr>left = 1, right = 1\<rparr>)]"
    and "old_splitter halves = r[d := (computed_cut (GetSize r d) \<lparr>left = 1, right = 1\<rparr> + fst (r ! d),
            GetSize r d - computed_cut (GetSize r d) \<lparr>left = 1, right = 1\<rparr>)]"
    by auto
  with computed_cut_plain(1) [OF d(2)] that show thesis by simp
qed

lemma split_decreases_weight:
  assumes "split_ctor r = Inr halves"
  shows "region_weight (new_splitter halves) < region_weight r"
    and "region_weight (old_splitter halves) < region_weight r"
proof -
  from assms obtain d where d: "d < length r" and s: "1 < GetSize r d"
    and a: "new_splitter halves = r[d := (fst (r ! d), GetSize r d div 2)]"
    and b: "old_splitter halves = r[d := (GetSize r d div 2 + fst (r ! d), GetSize r d - GetSize r d div 2)]"
    by (rule split_ctor_halves)
  note cut = computed_cut_plain(2-4) [OF s]
  have le: "GetSize r d div 2 \<le> GetSize r d"
    using cut by (simp add: word_le_nat_alt)
  from region_weight_update [OF d, of "fst (r ! d)" "GetSize r d div 2"] a cut
  show "region_weight (new_splitter halves) < region_weight r" by simp
  from region_weight_update [OF d, of "GetSize r d div 2 + fst (r ! d)" "GetSize r d - GetSize r d div 2"] b cut
  show "region_weight (old_splitter halves) < region_weight r"
    by (simp add: unat_sub [OF le])
qed

termination region_chunks
  by (relation "measure (\<lambda>(part, r). region_weight r)")
     (auto simp: split_decreases_weight)

declare empty_loop.simps [simp del] is_divisible_loop.simps [simp del]
  simple_leaves.simps [simp del] region_chunks.simps [simp del] fill_loop.simps [simp del]

subsection \<open>Emptiness and divisibility\<close>

lemma empty_loop_iff:
  "empty_loop r d \<longleftrightarrow> (\<exists>k. d \<le> k \<and> k < GetImageDimension r \<and> GetSize r k = 0)"
proof (induction r d rule: empty_loop.induct)
  case (1 r d)
  show ?case
  proof (cases "d < GetImageDimension r \<and> GetSize r d \<noteq> 0")
    case True
    then have "empty_loop r d = empty_loop r (d + 1)"
      by (subst empty_loop.simps) simp
    also from True have "\<dots> \<longleftrightarrow> (\<exists>k. d + 1 \<le> k \<and> k < GetImageDimension r \<and> GetSize r k = 0)"
      by (intro "1.IH") simp_all
    also from True have "\<dots> \<longleftrightarrow> (\<exists>k. d \<le> k \<and> k < GetImageDimension r \<and> GetSize r k = 0)"
      by (metis Suc_eq_plus1 Suc_leI le_neq_implies_less add_leD1)
    finally show ?thesis .
  next
    case False
    then show ?thesis
      by (subst empty_loop.simps) auto
  qed
qed

lemma is_divisible_loop_iff:
  "is_divisible_loop r d \<longleftrightarrow> (\<exists>k. d \<le> k \<and> k < GetImageDimension r \<and> 1 < GetSize r k)"
proof (induction r d rule: is_divisible_loop.induct)
  case (1 r d)
  show ?case
  proof (cases "d < GetImageDimension r \<and> \<not> 1 < GetSize r d")
    case True
    then have "is_divisible_loop r d = is_divisible_loop r (d + 1)"
      by (subst is_divisible_loop.simps) simp
    also from True have "\<dots> \<longleftrightarrow> (\<exists>k. d + 1 \<le> k \<and> k < GetImageDimension r \<and> 1 < GetSize r k)"
      by (intro "1.IH") simp_all
    also from True have "\<dots> \<longleftrightarrow> (\<exists>k. d \<le> k \<and> k < GetImageDimension r \<and> 1 < GetSize r k)"
      by (metis Suc_eq_plus1 Suc_leI le_neq_implies_less add_leD1)
    finally show ?thesis .
  next
    case False
    then show ?thesis
      by (subst is_divisible_loop.simps) auto
  qed
qed

lemma is_divisible_iff: "is_divisible r \<longleftrightarrow> (\<exists>d<GetImageDimension r. 1 < GetSize r d)"
  by (simp add: is_divisible_def is_divisible_loop_iff)

lemma empty_region_iff: "empty_region r \<longleftrightarrow> (\<exists>d<GetImageDimension r. GetSize r d = 0)"
  by (simp add: empty_region_def empty_loop_iff)

text \<open>
  C9. \<open>is_divisible()\<close> is true iff some dimension has size greater than 1, and \<open>empty()\<close> is true
  iff some dimension has size 0. A region none of whose sizes exceeds 1 (the all-sizes-one state,
  and every empty region whose sizes are all at most 1) is not divisible. The claim's
  "every empty region is not divisible" fails: an empty region in which another dimension has a
  size above 1 is divisible, as the counterexample with sizes \<open>[0, 4]\<close> shows.
\<close>

theorem divisible_and_empty_characterised:
  "(is_divisible r \<longleftrightarrow> (\<exists>d<GetImageDimension r. 1 < GetSize r d))
   \<and> (empty_region r \<longleftrightarrow> (\<exists>d<GetImageDimension r. GetSize r d = 0))
   \<and> ((\<forall>d<GetImageDimension r. GetSize r d \<le> 1) \<longrightarrow> \<not> is_divisible r)"
  by (auto simp: is_divisible_iff empty_region_iff)

theorem divisible_and_empty_characterised_witness:
  "\<not> is_divisible [(0, 1), (7, 0), (-2, 1)] \<and> empty_region [(0, 1), (7, 0), (-2, 1)]"
  using divisible_and_empty_characterised [of "[(0, 1), (7, 0), (-2, 1)]"]
  by (simp add: GetImageDimension_def GetSize_def All_less_Suc Ex_less_Suc)

theorem empty_region_divisible_counterexample:
  "empty_region [(0, 0), (0, 4)] \<and> is_divisible [(0, 0), (0, 4)]"
  by (simp add: empty_region_iff is_divisible_iff GetImageDimension_def GetSize_def
      Ex_less_Suc)

subsection \<open>A region that cannot be split\<close>

lemma split_scan_unsplittable:
  "(\<forall>d<n. GetSize region d \<le> 1) \<Longrightarrow> split_scan n region p = Inl (CouldNotBeSplit region)"
proof (induction n)
  case 0
  show ?case by simp
next
  case (Suc n)
  then have "\<not> 1 < GetSize region n" and "\<forall>d<n. GetSize region d \<le> 1"
    by (simp_all add: not_less)
  with Suc.IH show ?case by (simp add: split_scan_skip)
qed

text \<open>
  C5. When no dimension of a region has a size greater than 1, the splitting constructor does not
  return: it throws the "could not be split" exception, for the proportional split with any ratio
  and for the plain split alike.
\<close>

theorem unsplittable_region_throws:
  assumes "\<forall>d<GetImageDimension region. GetSize region d \<le> 1"
  shows "proportional_split_ctor region p = Inl (CouldNotBeSplit region)
         \<and> split_ctor region = Inl (CouldNotBeSplit region)"
  using assms by (simp add: proportional_split_ctor_def split_ctor_def split_scan_unsplittable)

theorem unsplittable_region_throws_witness:
  "proportional_split_ctor [(4, 1), (0, 0)] \<lparr>left = 2, right = 1\<rparr> = Inl (CouldNotBeSplit [(4, 1), (0, 0)])
   \<and> split_ctor [(4, 1), (0, 0)] = Inl (CouldNotBeSplit [(4, 1), (0, 0)])"
  using unsplittable_region_throws [of "[(4, 1), (0, 0)]" "\<lparr>left = 2, right = 1\<rparr>"]
  by (simp add: GetImageDimension_def GetSize_def All_less_Suc)

subsection \<open>The split at the chosen dimension\<close>

lemma length_SetSize [simp]: "length (SetSize r d v) = length r"
  by (simp add: SetSize_def)

lemma length_SetIndex [simp]: "length (SetIndex r d v) = length r"
  by (simp add: SetIndex_def)

lemma GetSize_SetSize:
  "d < length r \<Longrightarrow> GetSize (SetSize r d v) k = (if k = d then v else GetSize r k)"
  by (simp add: GetSize_def SetSize_def nth_list_update)

lemma GetIndex_SetSize: "GetIndex (SetSize r d v) k = GetIndex r k"
  by (cases "d < length r") (simp_all add: GetIndex_def SetSize_def nth_list_update list_update_beyond)

lemma GetSize_SetIndex: "GetSize (SetIndex r d v) k = GetSize r k"
  by (cases "d < length r") (simp_all add: GetSize_def SetIndex_def nth_list_update list_update_beyond)

lemma GetIndex_SetIndex:
  "d < length r \<Longrightarrow> GetIndex (SetIndex r d v) k = (if k = d then v else GetIndex r k)"
  by (simp add: GetIndex_def SetIndex_def nth_list_update)

lemma split_scan_chosen:
  assumes "d < n" and "\<forall>k. d < k \<and> k < n \<longrightarrow> GetSize region k \<le> 1"
  shows "split_scan n region p = split_scan (Suc d) region p"
  using assms
proof (induction n)
  case 0
  then show ?case by simp
next
  case (Suc n)
  show ?case
  proof (cases "d = n")
    case True
    then show ?thesis by simp
  next
    case False
    with Suc.prems have "d < n" and "\<not> 1 < GetSize region n"
      and "\<forall>k. d < k \<and> k < n \<longrightarrow> GetSize region k \<le> 1"
      by (auto simp: not_less)
    with Suc.IH show ?thesis by (simp add: split_scan_skip)
  qed
qed

lemma proportional_split_at:
  assumes "d < GetImageDimension region" and "1 < GetSize region d"
    and "\<forall>k. d < k \<and> k < GetImageDimension region \<longrightarrow> GetSize region k \<le> 1"
    and "left p + right p \<noteq> 0"
  shows "proportional_split_ctor region p =
    Inr \<lparr>new_splitter = SetSize region d (computed_cut (GetSize region d) p),
         old_splitter = SetIndex (SetSize region d (GetSize region d - computed_cut (GetSize region d) p)) d
           (computed_cut (GetSize region d) p + GetIndex region d)\<rparr>"
proof -
  from assms(1,3) have "split_scan (GetImageDimension region) region p = split_scan (Suc d) region p"
    by (rule split_scan_chosen)
  also from assms(2,4) have "\<dots> =
    Inr \<lparr>new_splitter = SetSize region d (computed_cut (GetSize region d) p),
         old_splitter = SetIndex (SetSize region d (GetSize region d - computed_cut (GetSize region d) p)) d
           (computed_cut (GetSize region d) p + GetIndex region d)\<rparr>"
    by (rule split_scan_here)
  finally show ?thesis by (simp add: proportional_split_ctor_def)
qed

lemma proportional_split_zero_sum:
  assumes "d < GetImageDimension region" and "1 < GetSize region d"
    and "\<forall>k. d < k \<and> k < GetImageDimension region \<longrightarrow> GetSize region k \<le> 1"
    and "left p + right p = 0"
  shows "proportional_split_ctor region p = Inl DivisionByZero"
proof -
  from assms(1,3) have "split_scan (GetImageDimension region) region p = split_scan (Suc d) region p"
    by (rule split_scan_chosen)
  also from assms(2,4) have "\<dots> = Inl DivisionByZero" by (rule split_scan_zero_sum)
  finally show ?thesis by (simp add: proportional_split_ctor_def)
qed

text \<open>Where neither the product nor the sum wraps around, \<^verbatim>\<open>myP\<close> is the clamped quotient of
  the specification.\<close>

lemma computed_cut_exact:
  assumes s: "1 < s"
    and prod: "unat s * unat (right p) < 2 ^ 64"
    and sum: "unat (left p) + unat (right p) < 2 ^ 64"
    and pos: "0 < unat (left p) + unat (right p)"
  shows "unat (computed_cut s p) = clamped_cut (unat s) (unat (left p)) (unat (right p))"
proof -
  define q where "q = (s * right p) div (left p + right p)"
  from prod have "unat (s * right p) = unat s * unat (right p)"
    using unat_mult_lem [of s "right p"] by simp
  moreover from sum have "unat (left p + right p) = unat (left p) + unat (right p)"
    using unat_add_lem [of "left p" "right p"] by simp
  ultimately have q: "unat q = (unat s * unat (right p)) div (unat (left p) + unat (right p))"
    by (simp add: q_def unat_div)
  have "unat s * unat (right p) \<le> unat s * (unat (left p) + unat (right p))" by simp
  then have "(unat s * unat (right p)) div (unat (left p) + unat (right p))
      \<le> (unat s * (unat (left p) + unat (right p))) div (unat (left p) + unat (right p))"
    by (rule div_le_mono)
  with pos q have le: "unat q \<le> unat s" by simp
  from s have s': "1 < unat s" by (simp add: word_less_nat_alt)
  have cut: "computed_cut s p = (if q = 0 then 1 else if q = s then s - 1 else q)"
    by (simp add: computed_cut_def q_def Let_def)
  define n where "n = (unat s * unat (right p)) div (unat (left p) + unat (right p))"
  from q le have qn: "unat q = n" and n: "n \<le> unat s" by (simp_all add: n_def)
  have goal: "clamped_cut (unat s) (unat (left p)) (unat (right p)) = max 1 (min (unat s - 1) n)"
    by (simp add: clamped_cut_def n_def)
  consider "q = 0" | "q = s" | "q \<noteq> 0" "q \<noteq> s" by blast
  then show ?thesis
  proof cases
    case 1
    with qn have "n = 0" by simp
    with 1 s' show ?thesis unfolding goal by (simp add: cut)
  next
    case 2
    from s have "1 \<le> s" by simp
    then have "unat (s - 1) = unat s - 1" by (simp add: unat_sub)
    moreover from 2 qn have "n = unat s" by simp
    moreover from 2 s have "q \<noteq> 0" by auto
    ultimately show ?thesis unfolding goal using 2 s' by (simp add: cut)
  next
    case 3
    from 3(1) have "unat q \<noteq> 0" by (simp add: unat_eq_0)
    moreover from 3(2) have "unat q \<noteq> unat s" using word_unat_eq_iff [of q s] by blast
    ultimately have "0 < n" and "n < unat s" using qn n by simp_all
    with 3 qn show ?thesis unfolding goal by (simp add: cut)
  qed
qed

text \<open>
  C3. Let \<open>d\<close> be the dimension the constructor chooses, the highest one with \<open>size[d] > 1\<close>,
  and let \<open>left \<ge> 1\<close> and \<open>right \<ge> 1\<close>. The constructor computes in 64-bit words. Whenever
  \<open>left + right\<close> does not wrap around to 0, it returns and neither half has size 0 in dimension
  \<open>d\<close>. When in addition neither \<open>size[d] * right\<close> nor \<open>left + right\<close> exceeds the word,
  the new splitter has size \<open>floor(size[d] * right / (left + right))\<close> clamped to
  \<open>[1, size[d] - 1]\<close> in dimension \<open>d\<close> and the other splitter has the rest. A region of size 10
  split with ratio \<open>(1, 1)\<close> gives halves of sizes 5 and 5. The claim's formula for every ratio
  fails where the arithmetic wraps around, as the counterexample shows.
\<close>

theorem cut_is_clamped_quotient:
  assumes "d < GetImageDimension region" and "1 < GetSize region d"
    and "\<forall>k. d < k \<and> k < GetImageDimension region \<longrightarrow> GetSize region k \<le> 1"
    and "1 \<le> left p" and "1 \<le> right p"
  shows "(left p + right p \<noteq> 0 \<longrightarrow>
            (\<exists>res. proportional_split_ctor region p = Inr res
               \<and> GetSize (new_splitter res) d \<noteq> 0 \<and> GetSize (old_splitter res) d \<noteq> 0
               \<and> GetSize (old_splitter res) d = GetSize region d - GetSize (new_splitter res) d))
         \<and> (unat (GetSize region d) * unat (right p) < 2 ^ 64
            \<longrightarrow> unat (left p) + unat (right p) < 2 ^ 64 \<longrightarrow>
            (\<exists>res. proportional_split_ctor region p = Inr res
               \<and> unat (GetSize (new_splitter res) d) = max 1 (min (unat (GetSize region d) - 1)
                     ((unat (GetSize region d) * unat (right p)) div (unat (left p) + unat (right p))))
               \<and> unat (GetSize (old_splitter res) d)
                     = unat (GetSize region d) - unat (GetSize (new_splitter res) d)
               \<and> 1 \<le> unat (GetSize (new_splitter res) d)
               \<and> unat (GetSize (new_splitter res) d) \<le> unat (GetSize region d) - 1
               \<and> 0 < unat (GetSize (old_splitter res) d)))
         \<and> proportional_split_ctor [(i, 10)] \<lparr>left = 1, right = 1\<rparr>
              = Inr \<lparr>new_splitter = [(i, 5)], old_splitter = [(5 + i, 5)]\<rparr>"
proof (intro conjI impI)
  let ?s = "GetSize region d"
  let ?c = "computed_cut ?s p"
  let ?res = "\<lparr>new_splitter = SetSize region d ?c,
      old_splitter = SetIndex (SetSize region d (?s - ?c)) d (?c + GetIndex region d)\<rparr>"
  from assms(1) have d: "d < length region" by (simp add: GetImageDimension_def)
  from d have new_size: "GetSize (new_splitter ?res) d = ?c" by (simp add: GetSize_SetSize)
  from d have old_size: "GetSize (old_splitter ?res) d = ?s - ?c"
    by (simp add: GetSize_SetIndex GetSize_SetSize)
  note proper = computed_cut_proper [OF assms(2), of p]
  {
    assume nz: "left p + right p \<noteq> 0"
    from assms(1-3) nz have "proportional_split_ctor region p = Inr ?res"
      by (rule proportional_split_at)
    moreover from proper have "GetSize (new_splitter ?res) d \<noteq> 0" and "GetSize (old_splitter ?res) d \<noteq> 0"
      unfolding new_size old_size by simp_all
    moreover have "GetSize (old_splitter ?res) d = ?s - GetSize (new_splitter ?res) d"
      unfolding new_size old_size ..
    ultimately show "\<exists>res. proportional_split_ctor region p = Inr res
               \<and> GetSize (new_splitter res) d \<noteq> 0 \<and> GetSize (old_splitter res) d \<noteq> 0
               \<and> GetSize (old_splitter res) d = GetSize region d - GetSize (new_splitter res) d"
      by blast
  }
  {
    assume prod: "unat ?s * unat (right p) < 2 ^ 64"
      and sum: "unat (left p) + unat (right p) < 2 ^ 64"
    from assms(4) have l: "1 \<le> unat (left p)" by (simp add: word_le_nat_alt)
    then have pos: "0 < unat (left p) + unat (right p)" by simp
    from sum have "unat (left p + right p) = unat (left p) + unat (right p)"
      using unat_add_lem [of "left p" "right p"] by simp
    with pos have nz: "left p + right p \<noteq> 0" by (metis unat_0 less_irrefl)
    from assms(1-3) nz have split: "proportional_split_ctor region p = Inr ?res"
      by (rule proportional_split_at)
    from assms(2) have s: "1 < unat ?s" by (simp add: word_less_nat_alt)
    have c: "unat ?c = max 1 (min (unat ?s - 1)
        ((unat ?s * unat (right p)) div (unat (left p) + unat (right p))))"
      using computed_cut_exact [OF assms(2) prod sum pos] by (simp add: clamped_cut_def)
    with s have bounds: "1 \<le> unat ?c" "unat ?c \<le> unat ?s - 1" by simp_all
    with s have "?c \<le> ?s" by (simp add: word_le_nat_alt)
    then have rest: "unat (?s - ?c) = unat ?s - unat ?c" by (rule unat_sub)
    from bounds s have "0 < unat ?s - unat ?c" by simp
    with split c bounds rest
    have "proportional_split_ctor region p = Inr ?res
        \<and> unat (GetSize (new_splitter ?res) d) = max 1 (min (unat ?s - 1)
              ((unat ?s * unat (right p)) div (unat (left p) + unat (right p))))
        \<and> unat (GetSize (old_splitter ?res) d) = unat ?s - unat (GetSize (new_splitter ?res) d)
        \<and> 1 \<le> unat (GetSize (new_splitter ?res) d)
        \<and> unat (GetSize (new_splitter ?res) d) \<le> unat ?s - 1
        \<and> 0 < unat (GetSize (old_splitter ?res) d)"
      unfolding new_size old_size by simp
    then show "\<exists>res. proportional_split_ctor region p = Inr res
               \<and> unat (GetSize (new_splitter res) d) = max 1 (min (unat (GetSize region d) - 1)
                     ((unat (GetSize region d) * unat (right p)) div (unat (left p) + unat (right p))))
               \<and> unat (GetSize (old_splitter res) d)
                     = unat (GetSize region d) - unat (GetSize (new_splitter res) d)
               \<and> 1 \<le> unat (GetSize (new_splitter res) d)
               \<and> unat (GetSize (new_splitter res) d) \<le> unat (GetSize region d) - 1
               \<and> 0 < unat (GetSize (old_splitter res) d)"
      by blast
  }
  show "proportional_split_ctor [(i, 10)] \<lparr>left = 1, right = 1\<rparr>
      = Inr \<lparr>new_splitter = [(i, 5)], old_splitter = [(5 + i, 5)]\<rparr>"
    by (simp add: proportional_split_ctor_def GetImageDimension_def split_scan.simps(2)
        GetSize_def GetIndex_def SetSize_def SetIndex_def)
qed

theorem cut_is_clamped_quotient_witness:
  "(\<exists>res. proportional_split_ctor [(0, 6), (2, 9), (1, 1)] \<lparr>left = 1, right = 3\<rparr> = Inr res
      \<and> unat (GetSize (new_splitter res) 1) = 6 \<and> unat (GetSize (old_splitter res) 1) = 3)
   \<and> proportional_split_ctor [(3, 10)] \<lparr>left = 1, right = 1\<rparr>
        = Inr \<lparr>new_splitter = [(3, 5)], old_splitter = [(8, 5)]\<rparr>"
proof -
  let ?r = "[(0, 6), (2, 9), (1, 1)] :: TBBImageRegionSplitter"
  let ?p = "\<lparr>left = 1, right = 3\<rparr>"
  have h1: "1 < GetImageDimension ?r" by (simp add: GetImageDimension_def)
  have h2: "1 < GetSize ?r 1" by (simp add: GetSize_def)
  have h3: "\<forall>k. 1 < k \<and> k < GetImageDimension ?r \<longrightarrow> GetSize ?r k \<le> 1"
    by (auto simp: GetImageDimension_def GetSize_def less_Suc_eq)
  have h4: "1 \<le> left ?p" and h5: "1 \<le> right ?p" by simp_all
  have s: "GetSize ?r 1 = 9" by (simp add: GetSize_def)
  have n: "unat (GetSize ?r 1) * unat (right ?p) < 2 ^ 64" "unat (left ?p) + unat (right ?p) < 2 ^ 64"
    by (simp_all add: GetSize_def)
  from cut_is_clamped_quotient [OF h1 h2 h3 h4 h5, of 3] n
  obtain res where "proportional_split_ctor ?r ?p = Inr res"
    and "unat (GetSize (new_splitter res) 1) = max 1 (min (unat (GetSize ?r 1) - 1)
        ((unat (GetSize ?r 1) * unat (right ?p)) div (unat (left ?p) + unat (right ?p))))"
    and "unat (GetSize (old_splitter res) 1) = unat (GetSize ?r 1) - unat (GetSize (new_splitter res) 1)"
    and other: "proportional_split_ctor [(3, 10)] \<lparr>left = 1, right = 1\<rparr>
        = Inr \<lparr>new_splitter = [(3, 5)], old_splitter = [(8, 5)]\<rparr>"
    by auto
  then have "proportional_split_ctor ?r ?p = Inr res
      \<and> unat (GetSize (new_splitter res) 1) = 6 \<and> unat (GetSize (old_splitter res) 1) = 3"
    by (simp add: GetSize_def)
  with other show ?thesis by blast
qed

theorem cut_wraps_counterexample:
  "proportional_split_ctor [(0, 9223372036854775808)] \<lparr>left = 1, right = 2\<rparr>
     = Inr \<lparr>new_splitter = [(0, 1)], old_splitter = [(1, 9223372036854775807)]\<rparr>
   \<and> max 1 (min (9223372036854775808 - 1) ((9223372036854775808 * 2) div (1 + 2)))
     = (6148914691236517205 :: nat)
   \<and> proportional_split_ctor [(0, 10)] \<lparr>left = 9223372036854775808, right = 9223372036854775808\<rparr>
     = Inl DivisionByZero"
  by (simp add: proportional_split_ctor_def GetImageDimension_def split_scan.simps(2)
      GetSize_def GetIndex_def SetSize_def SetIndex_def)

text \<open>
  C4. Let \<open>d\<close> be the chosen dimension and \<open>cut\<close> the value of \<^verbatim>\<open>myP\<close>, and let
  \<open>left + right\<close> not be 0. The splitter under construction (\<^verbatim>\<open>*this\<close>), which is the newly
  created one, has \<open>size[d] = cut\<close> and the original \<open>index[d]\<close>. The splitter that was split (the
  constructor's argument), which existed before, is left with \<open>size[d] = original size[d] - cut\<close>
  and \<open>index[d] = cut + original index[d]\<close>, both in 64-bit arithmetic. The dimension count and
  the index and size of every other dimension are those of the original region in both. The
  claim gives the upper half to the newly created splitter; in the code the newly created
  splitter takes the lower half of size \<open>cut\<close>, as the counterexample shows.
\<close>

theorem split_halves_assignment:
  assumes "d < GetImageDimension region" and "1 < GetSize region d"
    and "\<forall>k. d < k \<and> k < GetImageDimension region \<longrightarrow> GetSize region k \<le> 1"
    and "left p + right p \<noteq> 0"
  shows "\<exists>res. proportional_split_ctor region p = Inr res
    \<and> GetSize (new_splitter res) d = computed_cut (GetSize region d) p
    \<and> GetIndex (new_splitter res) d = GetIndex region d
    \<and> GetSize (old_splitter res) d = GetSize region d - computed_cut (GetSize region d) p
    \<and> GetIndex (old_splitter res) d = computed_cut (GetSize region d) p + GetIndex region d
    \<and> GetImageDimension (new_splitter res) = GetImageDimension region
    \<and> GetImageDimension (old_splitter res) = GetImageDimension region
    \<and> (\<forall>k. k \<noteq> d \<longrightarrow>
          GetIndex (new_splitter res) k = GetIndex region k
          \<and> GetSize (new_splitter res) k = GetSize region k
          \<and> GetIndex (old_splitter res) k = GetIndex region k
          \<and> GetSize (old_splitter res) k = GetSize region k)"
proof -
  let ?c = "computed_cut (GetSize region d) p"
  let ?new = "SetSize region d ?c"
  let ?old = "SetIndex (SetSize region d (GetSize region d - ?c)) d (?c + GetIndex region d)"
  from assms have split: "proportional_split_ctor region p = Inr \<lparr>new_splitter = ?new, old_splitter = ?old\<rparr>"
    by (rule proportional_split_at)
  from assms(1) have d: "d < length region" by (simp add: GetImageDimension_def)
  from d have "GetSize ?new d = ?c" and "GetIndex ?new d = GetIndex region d"
    and "GetSize ?old d = GetSize region d - ?c"
    and "GetIndex ?old d = ?c + GetIndex region d"
    and "GetImageDimension ?new = GetImageDimension region"
    and "GetImageDimension ?old = GetImageDimension region"
    and "\<forall>k. k \<noteq> d \<longrightarrow>
          GetIndex ?new k = GetIndex region k \<and> GetSize ?new k = GetSize region k
          \<and> GetIndex ?old k = GetIndex region k \<and> GetSize ?old k = GetSize region k"
    by (simp_all add: GetSize_SetSize GetIndex_SetSize GetSize_SetIndex GetIndex_SetIndex
        GetImageDimension_def)
  with split show ?thesis
    by (intro exI [of _ "\<lparr>new_splitter = ?new, old_splitter = ?old\<rparr>"]) simp
qed

theorem split_halves_assignment_witness:
  "\<exists>res. proportional_split_ctor [(0, 6), (2, 9), (1, 1)] \<lparr>left = 2, right = 1\<rparr> = Inr res
     \<and> GetSize (new_splitter res) 1 = 3 \<and> GetIndex (new_splitter res) 1 = 2
     \<and> GetSize (old_splitter res) 1 = 6 \<and> GetIndex (old_splitter res) 1 = 5
     \<and> GetSize (new_splitter res) 0 = 6 \<and> GetSize (old_splitter res) 2 = 1"
proof -
  let ?r = "[(0, 6), (2, 9), (1, 1)] :: TBBImageRegionSplitter"
  let ?p = "\<lparr>left = 2, right = 1\<rparr>"
  have h1: "1 < GetImageDimension ?r" by (simp add: GetImageDimension_def)
  have h2: "1 < GetSize ?r 1" by (simp add: GetSize_def)
  have h3: "\<forall>k. 1 < k \<and> k < GetImageDimension ?r \<longrightarrow> GetSize ?r k \<le> 1"
    by (auto simp: GetImageDimension_def GetSize_def less_Suc_eq)
  have h4: "left ?p + right ?p \<noteq> 0" by simp
  have s: "GetSize ?r 1 = 9" "GetIndex ?r 1 = 2" "GetSize ?r 0 = 6" "GetSize ?r 2 = 1"
    "computed_cut 9 ?p = 3"
    by (simp_all add: GetSize_def GetIndex_def computed_cut_def)
  from split_halves_assignment [OF h1 h2 h3 h4] obtain res where
    "proportional_split_ctor ?r ?p = Inr res"
    "GetSize (new_splitter res) 1 = 3" "GetIndex (new_splitter res) 1 = 2"
    "GetSize (old_splitter res) 1 = 6" "GetIndex (old_splitter res) 1 = 5"
    "\<forall>k. k \<noteq> 1 \<longrightarrow>
          GetIndex (new_splitter res) k = GetIndex ?r k \<and> GetSize (new_splitter res) k = GetSize ?r k
          \<and> GetIndex (old_splitter res) k = GetIndex ?r k \<and> GetSize (old_splitter res) k = GetSize ?r k"
    unfolding s by auto
  moreover from this have "GetSize (new_splitter res) 0 = 6" and "GetSize (old_splitter res) 2 = 1"
    using s by simp_all
  ultimately show ?thesis by blast
qed

theorem new_splitter_takes_cut_counterexample:
  "proportional_split_ctor [(0, 10)] \<lparr>left = 1, right = 3\<rparr>
     = Inr \<lparr>new_splitter = [(0, 7)], old_splitter = [(7, 3)]\<rparr>
   \<and> computed_cut 10 \<lparr>left = 1, right = 3\<rparr> = 7"
  by (simp add: proportional_split_ctor_def GetImageDimension_def split_scan.simps(2)
      GetSize_def GetIndex_def SetSize_def SetIndex_def computed_cut_def)

subsection \<open>Splitting partitions the index set\<close>
















lemma split_scan_succeeds:
  assumes "\<exists>d<n. 1 < GetSize region d" and "left p + right p \<noteq> 0"
  shows "\<exists>res. split_scan n region p = Inr res"
  using assms(1)
proof (induction n)
  case 0
  then show ?case by simp
next
  case (Suc n)
  show ?case
  proof (cases "1 < GetSize region n")
    case True
    with assms(2) show ?thesis by (simp add: split_scan_here)
  next
    case False
    with Suc.prems have "\<exists>d<n. 1 < GetSize region d" by (metis less_Suc_eq)
    with Suc.IH False show ?thesis by (simp add: split_scan_skip)
  qed
qed

lemma proportional_split_succeeds:
  assumes "is_divisible r" and "left p + right p \<noteq> 0"
  shows "\<exists>res. proportional_split_ctor r p = Inr res"
  using assms by (simp add: proportional_split_ctor_def is_divisible_iff split_scan_succeeds)

lemma split_succeeds:
  assumes "is_divisible r"
  shows "\<exists>halves. split_ctor r = Inr halves"
  using assms by (simp add: split_ctor_def proportional_split_succeeds)





subsection \<open>Recursive splitting\<close>







lemma region_chunks_succeeds: "\<exists>ls. region_chunks part r = Inr ls"
proof (induction "region_weight r" arbitrary: r rule: less_induct)
  case less
  show ?case
  proof (cases "is_divisible r \<and> part r")
    case False
    then show ?thesis by (subst region_chunks.simps) auto
  next
    case True
    then have "\<exists>halves. split_ctor r = Inr halves" by (simp add: split_succeeds)
    then obtain halves where h: "split_ctor r = Inr halves" by blast
    from split_decreases_weight [OF h]
    have "region_weight (new_splitter halves) < region_weight r"
      and "region_weight (old_splitter halves) < region_weight r" by simp_all
    then obtain xs ys where "region_chunks part (new_splitter halves) = Inr xs"
      and "region_chunks part (old_splitter halves) = Inr ys"
      using less.hyps by blast
    with True h show ?thesis by (subst region_chunks.simps) simp
  qed
qed










subsection \<open>Leaf tasks of the simple partitioner\<close>


text \<open>Every leaf holds one index: the assertion \<^verbatim>\<open>r.begin() + 1 == r.end()\<close> of the two
  lambdas holds for every task.\<close>

lemma simple_leaves_unit:
  "my_begin r < my_end r \<Longrightarrow> \<forall>l\<in>set (simple_leaves r). my_begin l + 1 = my_end l"
proof (induction r rule: simple_leaves.induct)
  case (1 r)
  show ?case
  proof (cases "br_is_divisible r")
    case False
    with "1.prems" have "my_end r = Suc (my_begin r)"
      by (simp add: br_is_divisible_def br_size_def)
    with False show ?thesis
      by (subst simple_leaves.simps) simp
  next
    case True
    define m where "m = my_begin r + (my_end r - my_begin r) div 2"
    from True have lo: "my_begin r < m" and hi: "m < my_end r"
      by (simp_all add: m_def br_is_divisible_def br_size_def)
    have halves: "fst (br_split r) = r\<lparr>my_end := m\<rparr>" "snd (br_split r) = r\<lparr>my_begin := m\<rparr>"
      by (simp_all add: br_split_def m_def Let_def)
    from True lo have "\<forall>l\<in>set (simple_leaves (fst (br_split r))). my_begin l + 1 = my_end l"
      using "1.IH"(1) by (simp add: halves)
    moreover from True hi have "\<forall>l\<in>set (simple_leaves (snd (br_split r))). my_begin l + 1 = my_end l"
      using "1.IH"(2) by (simp add: halves)
    ultimately show ?thesis
      using True by (subst simple_leaves.simps) auto
  qed
qed

subsection \<open>Running the leaf tasks\<close>



lemma run_tasks_never:
  assumes "\<And>r w. fst (body r w) \<noteq> Some x"
  shows "fst (run_tasks body ts w) \<noteq> Some x"
proof (induction ts arbitrary: w)
  case Nil
  show ?case by simp
next
  case (Cons r rs)
  obtain e w' where step: "body r w = (e, w')" by (cases "body r w")
  with assms [of r w] have "e \<noteq> Some x" by simp
  with step Cons.IH [of w'] show ?case by (cases e) simp_all
qed








lemma report_calls [simp]: "calls (report filter' v w) = calls w"
  by (cases filter') (simp_all add: report_def)

lemma finish_calls [simp]: "calls (snd (finish filter' w)) = calls w"
  by (cases filter') (simp_all add: finish_def Let_def)




lemma invoke_Some_calls: "calls (snd (invoke (Some f) a w)) = calls w @ [a]"
  by simp












subsection \<open>Exactly-once execution\<close>




subsection \<open>The empty range\<close>

text \<open>
  C8. \<open>ParallelizeArray\<close> on an empty range (\<open>firstIndex = lastIndexPlus1\<close>) never invokes the
  work function. Without a filter it returns normally and leaves the world as it was. With a
  filter it reports progress 0 and 1 and then reads the abort flag: it raises
  \<open>ProcessAborted\<close> when the flag is set and returns normally otherwise. The claim's "does not
  raise" fails for a filter whose abort flag is set, as the counterexample shows.
\<close>

theorem empty_range_no_work:
  "calls (snd (ParallelizeArray sch n n aFunc filter' w)) = calls w
   \<and> (filter' = None \<longrightarrow> ParallelizeArray sch n n aFunc filter' w = (None, w))
   \<and> (\<forall>flt. filter' = Some flt \<longrightarrow>
          fst (ParallelizeArray sch n n aFunc filter' w)
            = (if GetAbortGenerateData flt
                    (UpdateProgress flt (Fraction 1 1) (UpdateProgress flt (Fraction 0 1) (outer w)))
               then Some (aborted flt) else None))"
  by (cases filter')
    (simp_all add: ParallelizeArray_def report_def finish_def Let_def parallel_for_simple_def
      br_empty_def)

theorem empty_range_no_work_witness:
  "calls (snd (ParallelizeArray stolen 4 4 (Some count_work) (Some never_aborted) (fresh 0))) = []
   \<and> fst (ParallelizeArray stolen 4 4 (Some count_work) (Some never_aborted) (fresh 0)) = None
   \<and> ParallelizeArray stolen 9 9 (Some throwing_work) None (fresh 0) = (None, fresh 0)"
  using empty_range_no_work [of stolen 4 "Some count_work" "Some never_aborted" "fresh 0"]
    empty_range_no_work [of stolen 9 "Some throwing_work" None "fresh 0"]
  by (simp add: fresh_def never_aborted_def)

theorem empty_range_aborts_counterexample:
  "fst (ParallelizeArray one_worker 4 4 (Some count_work) (Some abort_requested) (fresh 0))
      = Some (aborted abort_requested)
   \<and> calls (snd (ParallelizeArray one_worker 4 4 (Some count_work) (Some abort_requested) (fresh 0))) = []"
  by (simp add: ParallelizeArray_def report_def finish_def Let_def abort_requested_def fresh_def)

subsection \<open>The region handed to the scheduler\<close>

lemma SetSize_SetIndex:
  "d < length region \<Longrightarrow> SetSize (SetIndex region d i) d n = region[d := (i, n)]"
  by (simp add: SetSize_def SetIndex_def)

lemma fill_loop_nth:
  "length (fill_loop dimension index' size' region d) = length region
   \<and> (\<forall>k<length region. fill_loop dimension index' size' region d ! k =
        (if d \<le> k \<and> k < dimension then (index' ! k, size' ! k) else region ! k))"
proof (induction dimension index' size' region d rule: fill_loop.induct)
  case (1 dimension index' size' region d)
  show ?case
  proof (cases "d < dimension")
    case False
    then show ?thesis by (subst (1 2) fill_loop.simps) auto
  next
    case True
    let ?region = "SetSize (SetIndex region d (index' ! d)) d (size' ! d)"
    have upd: "?region = region[d := (index' ! d, size' ! d)]"
      by (cases "d < length region")
         (simp_all add: SetSize_SetIndex SetSize_def SetIndex_def list_update_beyond)
    from True have unfold: "fill_loop dimension index' size' region d =
        fill_loop dimension index' size' ?region (d + 1)"
      by (subst fill_loop.simps) simp
    from "1.IH" [OF True] have
      len: "length (fill_loop dimension index' size' ?region (d + 1)) = length ?region"
      and nth: "\<forall>k<length ?region. fill_loop dimension index' size' ?region (d + 1) ! k =
        (if d + 1 \<le> k \<and> k < dimension then (index' ! k, size' ! k) else ?region ! k)"
      by simp_all
    show ?thesis
    proof (intro conjI allI impI)
      show "length (fill_loop dimension index' size' region d) = length region"
        unfolding unfold len by simp
    next
      fix k
      assume k: "k < length region"
      with nth have "fill_loop dimension index' size' ?region (d + 1) ! k =
          (if d + 1 \<le> k \<and> k < dimension then (index' ! k, size' ! k) else ?region ! k)"
        by simp
      with True k show "fill_loop dimension index' size' region d ! k =
          (if d \<le> k \<and> k < dimension then (index' ! k, size' ! k) else region ! k)"
        unfolding unfold upd by (cases "k = d") (auto simp: nth_list_update)
    qed
  qed
qed

lemma filled_region:
  "GetImageDimension (fill_loop dimension index' size' (ImageIORegion dimension) 0) = dimension"
  "d < dimension \<Longrightarrow> GetSize (fill_loop dimension index' size' (ImageIORegion dimension) 0) d = size' ! d"
  "d < dimension \<Longrightarrow> GetIndex (fill_loop dimension index' size' (ImageIORegion dimension) 0) d = index' ! d"
  using fill_loop_nth [of dimension index' size' "ImageIORegion dimension" 0]
  by (simp_all add: GetImageDimension_def GetSize_def GetIndex_def ImageIORegion_def)

lemma filled_region_empty:
  "empty_region (fill_loop dimension index' size' (ImageIORegion dimension) 0)
    \<longleftrightarrow> (\<exists>d<dimension. size' ! d = 0)"
  by (auto simp: empty_region_iff filled_region)

subsection \<open>Outcomes of the two Parallelize functions\<close>








lemma parallelize_region_multi:
  assumes "m_NumberOfThreads t \<noteq> 1" and "dimension \<le> length index'" and "dimension \<le> length size'"
  shows "ParallelizeImageRegion t sch dimension index' size' funcP filter' w =
    (case (fst (parallel_for_auto sch (fill_loop dimension index' size' (ImageIORegion dimension) 0)
            (region_body sch
               (GetNumberOfPixels (fill_loop dimension index' size' (ImageIORegion dimension) 0))
               funcP filter')
            (0, report filter' (Fraction 0 1) w)),
           snd (snd (parallel_for_auto sch (fill_loop dimension index' size' (ImageIORegion dimension) 0)
            (region_body sch
               (GetNumberOfPixels (fill_loop dimension index' size' (ImageIORegion dimension) 0))
               funcP filter')
            (0, report filter' (Fraction 0 1) w)))) of
       (Some e, w') \<Rightarrow> (Some e, w')
     | (None, w') \<Rightarrow> finish filter' w')"
  using assms by (simp add: ParallelizeImageRegion_def Let_def not_less [symmetric])


lemma parallelize_region_single:
  assumes "m_NumberOfThreads t = 1"
  shows "calls (snd (ParallelizeImageRegion t sch dimension index' size' (Some g) filter' w))
    = calls w @ [(index', size')]"
proof -
  let ?w = "report filter' (Fraction 0 1) w"
  obtain e w' where inv: "invoke (Some g) (index', size') ?w = (e, w')"
    by (cases "invoke (Some g) (index', size') ?w")
  then have "calls w' = calls w @ [(index', size')]"
    using invoke_Some_calls [of g "(index', size')" ?w] by simp
  with assms inv show ?thesis
    by (cases e) (simp_all add: ParallelizeImageRegion_def Let_def)
qed




lemma parallelize_region_empty:
  assumes "m_NumberOfThreads t \<noteq> 1" and "dimension \<le> length index'" and "dimension \<le> length size'"
    and "\<exists>d<dimension. size' ! d = 0"
  shows "ParallelizeImageRegion t sch dimension index' size' funcP filter' w =
    finish filter' (report filter' (Fraction 0 1) w)"
  unfolding parallelize_region_multi [OF assms(1,2,3)]
  using assms(4) by (simp add: parallel_for_auto_def filled_region_empty)

subsection \<open>Abort requested before the first task\<close>




subsection \<open>Regions with an empty extent\<close>

text \<open>
  C10. With one thread configured, \<open>ParallelizeImageRegion\<close> invokes the work function exactly
  once, with the caller's index and size arrays, whatever the sizes are, so also for a region with
  a size of 0. With another number of threads the region goes to the scheduler; a region with a
  size of 0 is empty, the scheduler runs no task for it, and the work function is not invoked.
  The claim's "still invoked for every call" fails there, as the counterexample shows.
\<close>

theorem region_with_empty_extent:
  "(m_NumberOfThreads t = 1 \<longrightarrow>
      calls (snd (ParallelizeImageRegion t sch dimension index' size' (Some g) filter' (fresh s)))
        = [(index', size')])
   \<and> (m_NumberOfThreads t \<noteq> 1 \<longrightarrow> dimension \<le> length index' \<longrightarrow> dimension \<le> length size'
      \<longrightarrow> (\<exists>d<dimension. size' ! d = 0) \<longrightarrow>
      calls (snd (ParallelizeImageRegion t sch dimension index' size' funcP filter' (fresh s))) = [])"
proof (intro conjI impI)
  assume "m_NumberOfThreads t = 1"
  then show "calls (snd (ParallelizeImageRegion t sch dimension index' size' (Some g) filter' (fresh s)))
        = [(index', size')]"
    using parallelize_region_single [of t sch dimension index' size' g filter' "fresh s"]
    by (simp add: fresh_def)
next
  assume "m_NumberOfThreads t \<noteq> 1" and "dimension \<le> length index'" and "dimension \<le> length size'"
    and "\<exists>d<dimension. size' ! d = 0"
  then show "calls (snd (ParallelizeImageRegion t sch dimension index' size' funcP filter' (fresh s))) = []"
    by (simp add: parallelize_region_empty) (simp add: fresh_def)
qed

theorem region_with_empty_extent_witness:
  "calls (snd (ParallelizeImageRegion (TBBMultiThreader 1 :: (unit, nat) TBBMultiThreader) stolen
      2 [0, 0] [0, 4] (Some count_work) None (fresh 0))) = [([0, 0], [0, 4])]
   \<and> calls (snd (ParallelizeImageRegion (TBBMultiThreader 3 :: (unit, nat) TBBMultiThreader) stolen
      2 [0, 0] [0, 4] (Some count_work) None (fresh 0))) = []"
proof -
  let ?t1 = "TBBMultiThreader 1 :: (unit, nat) TBBMultiThreader"
  let ?t3 = "TBBMultiThreader 3 :: (unit, nat) TBBMultiThreader"
  have one: "m_NumberOfThreads ?t1 = 1" and three: "m_NumberOfThreads ?t3 \<noteq> 1"
    by (simp_all add: TBBMultiThreader_def)
  have len: "2 \<le> length [0::IndexValueType, 0]" "2 \<le> length [0::SizeValueType, 4]" by simp_all
  have zero: "\<exists>d<2. [0::SizeValueType, 4] ! d = 0" by (intro exI [of _ 0]) simp
  from region_with_empty_extent [of ?t1 stolen 2 "[0, 0]" "[0, 4]" count_work None 0] one
  have "calls (snd (ParallelizeImageRegion ?t1 stolen 2 [0, 0] [0, 4] (Some count_work) None (fresh 0)))
      = [([0, 0], [0, 4])]"
    by blast
  moreover
  from region_with_empty_extent [of ?t3 stolen 2 "[0, 0]" "[0, 4]" count_work None 0 "Some count_work"]
    three len zero
  have "calls (snd (ParallelizeImageRegion ?t3 stolen 2 [0, 0] [0, 4] (Some count_work) None (fresh 0))) = []"
    by blast
  ultimately show ?thesis by simp
qed

theorem empty_region_skipped_counterexample:
  "calls (snd (ParallelizeImageRegion (TBBMultiThreader 2 :: (unit, nat) TBBMultiThreader) stolen
      1 [0] [0] (Some count_work) None (fresh 0))) = []
   \<and> fst (ParallelizeImageRegion (TBBMultiThreader 2 :: (unit, nat) TBBMultiThreader) stolen
      1 [0] [0] (Some count_work) None (fresh 0)) = None"
proof -
  let ?t = "TBBMultiThreader 2 :: (unit, nat) TBBMultiThreader"
  have "m_NumberOfThreads ?t \<noteq> 1" by (simp add: TBBMultiThreader_def)
  moreover have "1 \<le> length [0::IndexValueType]" and "1 \<le> length [0::SizeValueType]" by simp_all
  moreover have "\<exists>d<1. [0::SizeValueType] ! d = 0" by simp
  ultimately have "ParallelizeImageRegion ?t stolen 1 [0] [0] (Some count_work) None (fresh 0)
      = finish None (report None (Fraction 0 1) (fresh 0))"
    by (rule parallelize_region_empty)
  then show ?thesis by (simp add: finish_def report_def fresh_def)
qed

subsection \<open>A missing work function\<close>

lemma finish_never: "fst (finish filter' w) \<noteq> Some NoSingleMethodSet"
  by (cases filter') (simp_all add: finish_def Let_def aborted_def)

lemma then_finish_never:
  assumes "fst res \<noteq> Some NoSingleMethodSet"
  shows "fst (case res of (Some e, w') \<Rightarrow> (Some e, w') | (None, w') \<Rightarrow> finish filter' w')
    \<noteq> Some NoSingleMethodSet"
proof (cases res)
  case (Pair e w')
  with assms show ?thesis by (cases e) (simp_all add: finish_never)
qed

lemma array_body_never:
  "fst (array_body sch c None filter' r st) \<noteq> Some NoSingleMethodSet"
  by (cases filter') (simp_all add: array_body_def Let_def aborted_def)

lemma region_body_never:
  "fst (region_body sch c None filter' r st) \<noteq> Some NoSingleMethodSet"
  by (cases filter') (simp_all add: region_body_def Let_def aborted_def)

lemma parallelize_array_never:
  "fst (ParallelizeArray sch firstIndex lastIndexPlus1 None filter' w) \<noteq> Some NoSingleMethodSet"
proof -
  let ?w = "report filter' (Fraction 0 1) w"
  let ?body = "array_body sch (ucast (lastIndexPlus1 - firstIndex)) None filter'"
  let ?done = "parallel_for_simple sch \<lparr>my_begin = unat firstIndex, my_end = unat lastIndexPlus1\<rparr>
      ?body (0, ?w)"
  let ?res = "if firstIndex + 1 < lastIndexPlus1 then (fst ?done, snd (snd ?done))
      else if firstIndex + 1 = lastIndexPlus1 then invoke None firstIndex ?w else (None, ?w)"
  have "fst ?done \<noteq> Some NoSingleMethodSet"
    using run_tasks_never [of ?body NoSingleMethodSet, OF array_body_never]
    by (simp add: parallel_for_simple_def)
  then have "fst ?res \<noteq> Some NoSingleMethodSet" by simp
  then have "fst (case ?res of (Some e, w') \<Rightarrow> (Some e, w') | (None, w') \<Rightarrow> finish filter' w')
      \<noteq> Some NoSingleMethodSet"
    by (rule then_finish_never)
  then show ?thesis unfolding ParallelizeArray_def Let_def .
qed

lemma parallel_for_auto_never:
  assumes "\<And>r w. fst (body r w) \<noteq> Some NoSingleMethodSet"
  shows "fst (parallel_for_auto sch rng body w) \<noteq> Some NoSingleMethodSet"
proof -
  from region_chunks_succeeds [of "auto_partition sch" rng]
  obtain ts where "region_chunks (auto_partition sch) rng = Inr ts" by blast
  with run_tasks_never [of body NoSingleMethodSet "order sch ts" w, OF assms] show ?thesis
    by (simp add: parallel_for_auto_def)
qed

lemma parallelize_region_never:
  "fst (ParallelizeImageRegion t sch dimension index' size' None filter' w) \<noteq> Some NoSingleMethodSet"
proof -
  let ?w = "report filter' (Fraction 0 1) w"
  let ?region = "fill_loop dimension index' size' (ImageIORegion dimension) 0"
  let ?done = "parallel_for_auto sch ?region
      (region_body sch (GetNumberOfPixels ?region) None filter') (0, ?w)"
  let ?res = "if m_NumberOfThreads t = 1 then invoke None (index', size') ?w
      else if length index' < dimension \<or> length size' < dimension then (Some OutOfBoundsRead, ?w)
      else (fst ?done, snd (snd ?done))"
  have "fst ?done \<noteq> Some NoSingleMethodSet"
    by (rule parallel_for_auto_never) (rule region_body_never)
  then have "fst ?res \<noteq> Some NoSingleMethodSet" by simp
  then have "fst (case ?res of (Some e, w') \<Rightarrow> (Some e, w') | (None, w') \<Rightarrow> finish filter' w')
      \<noteq> Some NoSingleMethodSet"
    by (rule then_finish_never)
  then show ?thesis unfolding ParallelizeImageRegion_def Let_def .
qed

text \<open>
  C6. \<open>SingleMethodExecute\<close> without a single method throws "No single method set!" at once: the
  world is as before the call, nothing was dispatched and nothing invoked. \<open>ParallelizeArray\<close> and
  \<open>ParallelizeImageRegion\<close> receive their work function as an argument and do not check it: no
  call of theirs with an empty function object throws that exception; on an empty range, or on an
  empty region with more than one thread, such a call without a filter returns normally. The
  claim's "raises a ConfigurationError" fails for the two Parallelize functions, as the
  counterexample shows.
\<close>

theorem configuration_error_precondition:
  "(m_SingleMethod t = None \<longrightarrow> SingleMethodExecute sch t w = (Some NoSingleMethodSet, w))
   \<and> fst (ParallelizeArray asch firstIndex lastIndexPlus1 None afilter aw) \<noteq> Some NoSingleMethodSet
   \<and> ParallelizeArray asch n n None None aw = (None, aw)
   \<and> fst (ParallelizeImageRegion rt rsch dimension index' size' None rfilter rw) \<noteq> Some NoSingleMethodSet
   \<and> (m_NumberOfThreads rt \<noteq> 1 \<longrightarrow> dimension \<le> length index' \<longrightarrow> dimension \<le> length size'
      \<longrightarrow> (\<exists>d<dimension. size' ! d = 0)
      \<longrightarrow> ParallelizeImageRegion rt rsch dimension index' size' None None rw = (None, rw))"
proof (intro conjI impI)
  assume "m_SingleMethod t = None"
  then show "SingleMethodExecute sch t w = (Some NoSingleMethodSet, w)"
    by (simp add: SingleMethodExecute_def)
next
  show "fst (ParallelizeArray asch firstIndex lastIndexPlus1 None afilter aw) \<noteq> Some NoSingleMethodSet"
    by (rule parallelize_array_never)
next
  show "ParallelizeArray asch n n None None aw = (None, aw)"
    by (simp add: ParallelizeArray_def report_def finish_def Let_def parallel_for_simple_def
        br_empty_def)
next
  show "fst (ParallelizeImageRegion rt rsch dimension index' size' None rfilter rw) \<noteq> Some NoSingleMethodSet"
    by (rule parallelize_region_never)
next
  assume "m_NumberOfThreads rt \<noteq> 1" and "dimension \<le> length index'" and "dimension \<le> length size'"
    and "\<exists>d<dimension. size' ! d = 0"
  then have "ParallelizeImageRegion rt rsch dimension index' size' None None rw =
      finish None (report None (Fraction 0 1) rw)"
    by (rule parallelize_region_empty)
  then show "ParallelizeImageRegion rt rsch dimension index' size' None None rw = (None, rw)"
    by (simp add: finish_def report_def)
qed

theorem configuration_error_precondition_witness:
  "SingleMethodExecute stolen (TBBMultiThreader 4 :: (unit, nat) TBBMultiThreader) (fresh 0)
      = (Some NoSingleMethodSet, fresh 0)
   \<and> ParallelizeImageRegion (TBBMultiThreader 4 :: (unit, nat) TBBMultiThreader) stolen
        2 [0, 0] [3, 0] None None (fresh 0) = (None, fresh 0)"
proof -
  let ?t = "TBBMultiThreader 4 :: (unit, nat) TBBMultiThreader"
  have none: "m_SingleMethod ?t = None" and four: "m_NumberOfThreads ?t \<noteq> 1"
    by (simp_all add: TBBMultiThreader_def)
  have len: "2 \<le> length [0::IndexValueType, 0]" "2 \<le> length [3::SizeValueType, 0]" by simp_all
  have zero: "\<exists>d<2. [3::SizeValueType, 0] ! d = 0" by (intro exI [of _ 1]) simp
  from configuration_error_precondition [where t = ?t and sch = stolen and w = "fresh 0"
      and rt = ?t and rsch = stolen and dimension = 2 and index' = "[0, 0]" and size' = "[3, 0]"
      and rw = "fresh 0"] none four len zero
  show ?thesis by blast
qed

theorem no_configuration_error_counterexample:
  "ParallelizeArray one_worker 0 0 None None (fresh (0::nat)) = (None, fresh 0)
   \<and> fst (ParallelizeArray one_worker 0 1 None None (fresh (0::nat))) = Some BadFunctionCall"
  by (simp add: ParallelizeArray_def report_def finish_def)

end
